theory Spec2Isabelle
  imports Complex_Main
begin

section \<open>Disease Prediction API: symptom vectorisation and ranked inference\<close>

text \<open>
  A shallow embedding of \<^verbatim>\<open>src/main.py\<close>. Python \<^verbatim>\<open>str\<close> values are modelled as
  \<^typ>\<open>string\<close>, every \<^typ>\<open>char\<close> standing for one code point in the range
  U+0000..U+00FF; strings with code points beyond that range are outside the model.
  NumPy and TensorFlow floating-point numbers are modelled as \<^typ>\<open>real\<close>: scores are
  finite, and there is no rounding, overflow or NaN.
\<close>

subsection \<open>Python exceptions and string methods\<close>

datatype exn =
    FileNotFoundError string
  | KeyError string
  | TypeError
  | IndexError
  | Exception string

text \<open>
  \<^verbatim>\<open>str.lower()\<close> on code points below U+0100: the upper-case letters are A..Z and
  U+00C0..U+00DE without the multiplication sign U+00D7; each lies 32 below its
  lower-case letter.
\<close>

definition lower_char :: "char \<Rightarrow> char" where
  "lower_char c =
     (let n = (of_char c :: nat)
      in if (65 \<le> n \<and> n \<le> 90) \<or> (192 \<le> n \<and> n \<le> 222 \<and> n \<noteq> 215)
         then char_of (n + 32) else c)"

definition lower :: "string \<Rightarrow> string" where
  "lower s = map lower_char s"

text \<open>
  \<^verbatim>\<open>str.strip()\<close> removes leading and trailing whitespace. Below U+0100 the code points
  for which \<^verbatim>\<open>str.isspace()\<close> holds are 9..13, 28..32, 133 and 160.
\<close>

definition isspace :: "char \<Rightarrow> bool" where
  "isspace c =
     (let n = (of_char c :: nat)
      in (9 \<le> n \<and> n \<le> 13) \<or> (28 \<le> n \<and> n \<le> 32) \<or> n = 133 \<or> n = 160)"

definition strip :: "string \<Rightarrow> string" where
  "strip s = rev (dropWhile isspace (rev (dropWhile isspace s)))"

subsection \<open>The vectorizer\<close>

text \<open>
  The loop of \<^verbatim>\<open>preprocess_symptoms\<close> over \<^verbatim>\<open>enumerate(symptom_columns)\<close>: the
  vector is updated in place at \<^verbatim>\<open>idx\<close> when the normalised column name is a member of
  the normalised input list.
\<close>

fun preprocess_loop :: "string list \<Rightarrow> (nat \<times> string) list \<Rightarrow> real list \<Rightarrow> real list" where
  "preprocess_loop normalized_symptoms [] symptom_vector = symptom_vector"
| "preprocess_loop normalized_symptoms ((idx, symptom_col) # rest) symptom_vector =
     (let normalized_col = strip (lower symptom_col)
      in preprocess_loop normalized_symptoms rest
           (if normalized_col \<in> set normalized_symptoms
            then symptom_vector[idx := 1] else symptom_vector))"

text \<open>
  \<^verbatim>\<open>preprocess_symptoms\<close> reads the global \<^verbatim>\<open>symptom_columns\<close>, here its first argument;
  while the global is still \<^verbatim>\<open>None\<close>, \<^verbatim>\<open>len(symptom_columns)\<close> raises \<^verbatim>\<open>TypeError\<close>.
  The result is the single row of the \<^verbatim>\<open>(1, N)\<close> array the function returns.
\<close>

definition preprocess_symptoms :: "string list option \<Rightarrow> string list \<Rightarrow> exn + real list" where
  "preprocess_symptoms symptom_columns symptoms =
     (case symptom_columns of
        None \<Rightarrow> Inl TypeError
      | Some cols \<Rightarrow>
          (let symptom_vector = replicate (length cols) 0;
               normalized_symptoms = map (\<lambda>s. strip (lower s)) symptoms
           in Inr (preprocess_loop normalized_symptoms (enumerate 0 cols) symptom_vector)))"

subsection \<open>Process-wide state and start-up\<close>

text \<open>
  The opaque trained classifier: \<^verbatim>\<open>model.predict\<close> maps the feature row to the row of
  raw scores, or raises. The globals \<^verbatim>\<open>model\<close>, \<^verbatim>\<open>symptom_columns\<close> and
  \<^verbatim>\<open>disease_labels\<close> start as \<^verbatim>\<open>None\<close>.
\<close>

type_synonym classifier = "real list \<Rightarrow> exn + real list"

record app_state =
  model :: "classifier option"
  symptom_columns :: "string list option"
  disease_labels :: "string list option"

definition initial_state :: app_state where
  "initial_state = \<lparr>model = None, symptom_columns = None, disease_labels = None\<rparr>"

record config =
  MODEL_PATH :: string
  METADATA_PATH :: string

text \<open>
  What start-up reads from outside the program: \<^verbatim>\<open>os.path.exists\<close>,
  \<^verbatim>\<open>tf.keras.models.load_model\<close>, and \<^verbatim>\<open>open\<close> followed by \<^verbatim>\<open>json.load\<close>. The
  parsed metadata is a dictionary from keys to lists of names.
\<close>

type_synonym metadata = "string \<rightharpoonup> string list"

record environment =
  path_exists :: "string \<Rightarrow> bool"
  load_model :: "string \<Rightarrow> exn + classifier"
  json_load :: "string \<Rightarrow> exn + metadata"

text \<open>
  The part of \<^verbatim>\<open>lifespan\<close> before its \<^verbatim>\<open>yield\<close>. Both \<^verbatim>\<open>except\<close> clauses print and
  re-raise, so the result is the exception that leaves the function (\<open>None\<close> when the
  \<^verbatim>\<open>yield\<close> is reached) together with the globals as assigned so far.
\<close>

definition lifespan :: "config \<Rightarrow> environment \<Rightarrow> app_state \<Rightarrow> exn option \<times> app_state" where
  "lifespan cfg env g =
     (if \<not> path_exists env (MODEL_PATH cfg)
      then (Some (FileNotFoundError (''Model file not found: '' @ MODEL_PATH cfg)), g)
      else
        (case load_model env (MODEL_PATH cfg) of
           Inl e \<Rightarrow> (Some e, g)
         | Inr m \<Rightarrow>
             (let g1 = g\<lparr>model := Some m\<rparr>
              in if \<not> path_exists env (METADATA_PATH cfg)
                 then (Some (FileNotFoundError
                               (''Metadata file not found: '' @ METADATA_PATH cfg)), g1)
                 else
                   (case json_load env (METADATA_PATH cfg) of
                      Inl e \<Rightarrow> (Some e, g1)
                    | Inr metadata \<Rightarrow>
                        (case metadata ''symptom_columns'' of
                           None \<Rightarrow> (Some (KeyError ''symptom_columns''), g1)
                         | Some cols \<Rightarrow>
                             (let g2 = g1\<lparr>symptom_columns := Some cols\<rparr>
                              in case metadata ''disease_labels'' of
                                   None \<Rightarrow> (Some (KeyError ''disease_labels''), g2)
                                 | Some labels \<Rightarrow>
                                     (None, g2\<lparr>disease_labels := Some labels\<rparr>)))))))"

text \<open>
  \<^verbatim>\<open>FastAPI(..., lifespan=lifespan)\<close> hands the context manager to the ASGI server, which
  runs it up to the \<^verbatim>\<open>yield\<close> before it accepts any request; an exception that leaves it
  fails the application start-up and the server exits. That contract of the framework is
  written out here.
\<close>

datatype server = Startup_failed exn | Serving app_state

definition startup :: "config \<Rightarrow> environment \<Rightarrow> server" where
  "startup cfg env =
     (case lifespan cfg env initial_state of
        (Some e, g) \<Rightarrow> Startup_failed e
      | (None, g) \<Rightarrow> Serving g)"

subsection \<open>Inference and ranking\<close>

text \<open>
  \<^verbatim>\<open>tf.nn.softmax\<close> is TensorFlow's; its documented value is
  \<^verbatim>\<open>exp(logits) / reduce_sum(exp(logits))\<close>, here over the reals.
\<close>

definition softmax :: "real list \<Rightarrow> real list" where
  "softmax logits = map (\<lambda>x. exp x / sum_list (map exp logits)) logits"

text \<open>
  \<^verbatim>\<open>np.argsort\<close> returns the indices that sort the array in ascending order. NumPy leaves
  the order of equal elements to the sorting algorithm, which need not be stable; the
  model keeps equal elements in index order, so on tied scores the order of the tied
  labels in the model can differ from NumPy's. The general theorems below use only that
  the result is a permutation of the indices that sorts the array (\<open>length_argsort\<close>,
  \<open>set_argsort\<close>, \<open>sorted_argsort\<close>), and the worked examples other than the one on
  ties have pairwise different scores.
\<close>

definition argsort :: "real list \<Rightarrow> nat list" where
  "argsort a = sort_key (\<lambda>i. a ! i) [0..<length a]"

text \<open>The slice \<^verbatim>\<open>[-3:]\<close>: the last three elements, or all of them when there are fewer.\<close>

definition last_3 :: "'a list \<Rightarrow> 'a list" where
  "last_3 xs = drop (length xs - 3) xs"

text \<open>Indexing with a non-negative index: \<^verbatim>\<open>IndexError\<close> out of range.\<close>

definition getitem :: "'a list \<Rightarrow> nat \<Rightarrow> exn + 'a" where
  "getitem xs i = (if i < length xs then Inr (xs ! i) else Inl IndexError)"

text \<open>Indexing a global that may still be \<^verbatim>\<open>None\<close>: subscripting \<^verbatim>\<open>None\<close> is a \<^verbatim>\<open>TypeError\<close>.\<close>

definition getitem_global :: "'a list option \<Rightarrow> nat \<Rightarrow> exn + 'a" where
  "getitem_global xs i = (case xs of None \<Rightarrow> Inl TypeError | Some l \<Rightarrow> getitem l i)"

record prediction =
  disease :: string
  confidence :: real

record PredictionResponse =
  predicted_disease :: string
  confidence :: real
  top_3_predictions :: "prediction list"

text \<open>
  An element of the batch endpoint's \<^verbatim>\<open>results\<close>: a dictionary with the three keys of
  the single response and the key \<^verbatim>\<open>symptoms\<close>.
\<close>

record batch_prediction = PredictionResponse +
  symptoms :: "string list"

text \<open>
  The loop \<^verbatim>\<open>for idx in top_3_indices: top_3_predictions.append({...})\<close>, which both
  endpoints contain word for word.
\<close>

fun top_3_loop ::
  "string list option \<Rightarrow> real list \<Rightarrow> nat list \<Rightarrow> prediction list \<Rightarrow> exn + prediction list" where
  "top_3_loop labels probabilities [] top_3 = Inr top_3"
| "top_3_loop labels probabilities (idx # rest) top_3 =
     (case getitem_global labels idx of
        Inl e \<Rightarrow> Inl e
      | Inr d \<Rightarrow>
          (case getitem probabilities idx of
             Inl e \<Rightarrow> Inl e
           | Inr c \<Rightarrow>
               top_3_loop labels probabilities rest
                 (top_3 @ [\<lparr>disease = d, prediction.confidence = c\<rparr>])))"

subsection \<open>The endpoints\<close>

text \<open>
  A handler returns its response, or the \<^verbatim>\<open>HTTPException\<close> it raises, together with the
  calls it made to the vectorizer and to the classifier, in order.
\<close>

datatype detail =
    Model_not_loaded
  | No_symptoms_provided
  | Prediction_error exn
  | Batch_prediction_error exn

datatype http_error = HTTPException nat detail

datatype call = Vectorizer_call "string list" | Classifier_call "real list"

text \<open>The \<^verbatim>\<open>try\<close> block of \<^verbatim>\<open>predict_disease\<close>.\<close>

definition predict_disease_try ::
  "classifier \<Rightarrow> app_state \<Rightarrow> string list \<Rightarrow> (exn + PredictionResponse) \<times> call list" where
  "predict_disease_try m g request_symptoms =
     (case preprocess_symptoms (symptom_columns g) request_symptoms of
        Inl e \<Rightarrow> (Inl e, [Vectorizer_call request_symptoms])
      | Inr input_vector \<Rightarrow>
          (let calls = [Vectorizer_call request_symptoms, Classifier_call input_vector]
           in case m input_vector of
                Inl e \<Rightarrow> (Inl e, calls)
              | Inr logits \<Rightarrow>
                  (let probabilities = softmax logits;
                       top_3_indices = rev (last_3 (argsort probabilities))
                   in case top_3_loop (disease_labels g) probabilities top_3_indices [] of
                        Inl e \<Rightarrow> (Inl e, calls)
                      | Inr top_3 \<Rightarrow>
                          (case getitem top_3_indices 0 of
                             Inl e \<Rightarrow> (Inl e, calls)
                           | Inr top_prediction_idx \<Rightarrow>
                               (case getitem_global (disease_labels g) top_prediction_idx of
                                  Inl e \<Rightarrow> (Inl e, calls)
                                | Inr d \<Rightarrow>
                                    (case getitem probabilities top_prediction_idx of
                                       Inl e \<Rightarrow> (Inl e, calls)
                                     | Inr c \<Rightarrow>
                                         (Inr \<lparr>predicted_disease = d, confidence = c,
                                               top_3_predictions = top_3\<rparr>,
                                          calls)))))))"

definition predict_disease ::
  "app_state \<Rightarrow> string list \<Rightarrow> (http_error + PredictionResponse) \<times> call list" where
  "predict_disease g request_symptoms =
     (case model g of
        None \<Rightarrow> (Inl (HTTPException 500 Model_not_loaded), [])
      | Some m \<Rightarrow>
          if request_symptoms = []
          then (Inl (HTTPException 400 No_symptoms_provided), [])
          else
            (case predict_disease_try m g request_symptoms of
               (Inl e, calls) \<Rightarrow> (Inl (HTTPException 500 (Prediction_error e)), calls)
             | (Inr response, calls) \<Rightarrow> (Inr response, calls)))"

text \<open>
  The loop of \<^verbatim>\<open>predict_disease_batch\<close> over \<^verbatim>\<open>symptoms_list\<close>, with the results and
  the calls made so far. An exception leaves the loop at once. The source evaluates
  \<^verbatim>\<open>top_3_indices[0]\<close> once for the label and once more for the confidence; \<open>i0\<close> is
  that index.
\<close>

fun batch_loop ::
  "classifier \<Rightarrow> app_state \<Rightarrow> string list list \<Rightarrow> batch_prediction list \<Rightarrow> call list \<Rightarrow>
     (exn + batch_prediction list) \<times> call list" where
  "batch_loop m g [] results calls = (Inr results, calls)"
| "batch_loop m g (item # rest) results calls =
     (case preprocess_symptoms (symptom_columns g) item of
        Inl e \<Rightarrow> (Inl e, calls @ [Vectorizer_call item])
      | Inr input_vector \<Rightarrow>
          (let calls1 = calls @ [Vectorizer_call item, Classifier_call input_vector]
           in case m input_vector of
                Inl e \<Rightarrow> (Inl e, calls1)
              | Inr logits \<Rightarrow>
                  (let probabilities = softmax logits;
                       top_3_indices = rev (last_3 (argsort probabilities))
                   in case top_3_loop (disease_labels g) probabilities top_3_indices [] of
                        Inl e \<Rightarrow> (Inl e, calls1)
                      | Inr top_3 \<Rightarrow>
                          (case getitem top_3_indices 0 of
                             Inl e \<Rightarrow> (Inl e, calls1)
                           | Inr i0 \<Rightarrow>
                               (case getitem_global (disease_labels g) i0 of
                                  Inl e \<Rightarrow> (Inl e, calls1)
                                | Inr d \<Rightarrow>
                                    (case getitem probabilities i0 of
                                       Inl e \<Rightarrow> (Inl e, calls1)
                                     | Inr c \<Rightarrow>
                                         batch_loop m g rest
                                           (results @
                                              [\<lparr>predicted_disease = d, confidence = c,
                                                top_3_predictions = top_3, symptoms = item\<rparr>])
                                           calls1))))))"

definition predict_disease_batch ::
  "app_state \<Rightarrow> string list list \<Rightarrow> (http_error + batch_prediction list) \<times> call list" where
  "predict_disease_batch g symptoms_list =
     (case model g of
        None \<Rightarrow> (Inl (HTTPException 500 Model_not_loaded), [])
      | Some m \<Rightarrow>
          (case batch_loop m g symptoms_list [] [] of
             (Inl e, calls) \<Rightarrow> (Inl (HTTPException 500 (Batch_prediction_error e)), calls)
           | (Inr results, calls) \<Rightarrow> (Inr results, calls)))"

subsection \<open>A small deployment used in the examples\<close>

definition example_model :: classifier where
  "example_model v =
     (if sum_list v = 0 then Inr [ln 10, ln 6, ln 3, 0] else Inr [0, ln 6, ln 3, ln 10])"

definition tie_model :: classifier where
  "tie_model v = Inr [0, 0]"

definition example_state :: app_state where
  "example_state =
     \<lparr>model = Some example_model,
      symptom_columns = Some [''Fever'', ''cough'', ''Skin Rash ''],
      disease_labels = Some [''Flu'', ''Cold'', ''Allergy'', ''Measles'']\<rparr>"

definition tie_state :: app_state where
  "tie_state =
     \<lparr>model = Some tie_model,
      symptom_columns = Some [''fever''],
      disease_labels = Some [''Flu'', ''Cold'']\<rparr>"



definition example_config :: config where
  "example_config = \<lparr>MODEL_PATH = ''model10.keras'', METADATA_PATH = ''model_metadata.json''\<rparr>"

text \<open>A file system that holds the model file and no metadata file.\<close>

definition metadata_missing :: environment where
  "metadata_missing =
     \<lparr>path_exists = (\<lambda>p. p = ''model10.keras''),
      load_model = (\<lambda>p. Inr example_model),
      json_load = (\<lambda>p. Inl (FileNotFoundError p))\<rparr>"

section \<open>Properties of the vectorizer\<close>

lemma length_preprocess_loop:
  "length (preprocess_loop ns es v) = length v"
  by (induction ns es v rule: preprocess_loop.induct) (simp_all add: Let_def)

lemma preprocess_loop_nth:
  "i < length v \<Longrightarrow>
   preprocess_loop ns (enumerate k cols) v ! i =
     (if k \<le> i \<and> i < k + length cols \<and> strip (lower (cols ! (i - k))) \<in> set ns
      then 1 else v ! i)"
proof (induction cols arbitrary: k v)
  case Nil
  then show ?case by simp
next
  case (Cons c cols)
  let ?v = "if strip (lower c) \<in> set ns then v[k := 1] else v"
  have len: "i < length ?v" using Cons.prems by simp
  have step: "preprocess_loop ns (enumerate k (c # cols)) v ! i
                = preprocess_loop ns (enumerate (Suc k) cols) ?v ! i"
    by (simp add: Let_def)
  show ?case
  proof (cases "i = k")
    case True
    then show ?thesis
      unfolding step Cons.IH [OF len] using Cons.prems by simp
  next
    case False
    then have "(Suc k \<le> i) = (k \<le> i)" by arith
    moreover have "k \<le> i \<Longrightarrow> (c # cols) ! (i - k) = cols ! (i - Suc k)"
      using False by (simp add: nth_Cons')
    moreover have "?v ! i = v ! i" using False by simp
    ultimately show ?thesis
      unfolding step Cons.IH [OF len] by auto
  qed
qed

subsection \<open>Normalisation\<close>

lemma lower_char_isspace: "isspace c \<Longrightarrow> lower_char c = c"
  by (auto simp: isspace_def lower_char_def Let_def)

lemma isspace_lower: "\<forall>c \<in> set l. isspace c \<Longrightarrow> lower l = l"
  by (induction l) (simp_all add: lower_def lower_char_isspace)

lemma lower_append: "lower (a @ b) = lower a @ lower b"
  by (simp add: lower_def)

lemma strip_pad:
  assumes "\<forall>c \<in> set l. isspace c" and "\<forall>c \<in> set r. isspace c"
  shows "strip (l @ s @ r) = strip s"
proof -
  have "dropWhile isspace (l @ s @ r) = dropWhile isspace (s @ r)"
    using assms(1) by simp
  moreover have "dropWhile isspace (rev (dropWhile isspace (s @ r)))
                   = dropWhile isspace (rev (dropWhile isspace s))"
  proof (cases "\<forall>c \<in> set s. isspace c")
    case True
    then have "dropWhile isspace (s @ r) = []" using assms(2) by auto
    moreover have "dropWhile isspace s = []" using True by simp
    ultimately show ?thesis by (simp only:)
  next
    case False
    then obtain x where "x \<in> set s" "\<not> isspace x" by blast
    then have "dropWhile isspace (s @ r) = dropWhile isspace s @ r"
      by (rule dropWhile_append1)
    moreover have "dropWhile isspace (rev r @ rev (dropWhile isspace s))
                     = dropWhile isspace (rev (dropWhile isspace s))"
      by (rule dropWhile_append2) (use assms(2) in auto)
    ultimately show ?thesis by simp
  qed
  ultimately show ?thesis by (simp add: strip_def)
qed

lemma normalize_pad:
  assumes "\<forall>c \<in> set l. isspace c" and "\<forall>c \<in> set r. isspace c"
  shows "strip (lower (l @ s @ r)) = strip (lower s)"
  using assms by (simp add: lower_append isspace_lower strip_pad)


lemma preprocess_loop_set_cong:
  "set ns = set ns' \<Longrightarrow> preprocess_loop ns es v = preprocess_loop ns' es v"
  by (induction ns es v rule: preprocess_loop.induct) (simp_all add: Let_def)

lemma preprocess_loop_unrecognized:
  "\<forall>(i, c) \<in> set es. strip (lower c) \<notin> set us \<Longrightarrow>
   preprocess_loop (ns @ us) es v = preprocess_loop ns es v"
  by (induction ns es v rule: preprocess_loop.induct) (auto simp add: Let_def)


subsection \<open>The feature vector\<close>

text \<open>
  C1: for every list of input strings and every loaded schema of length N the vectorizer
  returns (without raising) a vector of length N whose position i is 1 when the
  lower-cased, trimmed schema entry i equals some lower-cased, trimmed input string, and
  0 otherwise.
\<close>

theorem preprocess_symptoms_vector:
  "\<exists>v. preprocess_symptoms (Some schema) inputs = Inr v \<and>
       length v = length schema \<and>
       (\<forall>i < length schema.
          v ! i = (if \<exists>s \<in> set inputs. strip (lower (schema ! i)) = strip (lower s)
                   then 1 else 0))"
proof -
  let ?ns = "map (\<lambda>s. strip (lower s)) inputs"
  let ?v = "preprocess_loop ?ns (enumerate 0 schema) (replicate (length schema) 0)"
  have "preprocess_symptoms (Some schema) inputs = Inr ?v"
    by (simp add: preprocess_symptoms_def)
  moreover have "length ?v = length schema"
    by (simp add: length_preprocess_loop)
  moreover have "?v ! i = (if \<exists>s \<in> set inputs. strip (lower (schema ! i)) = strip (lower s)
                           then 1 else 0)"
    if "i < length schema" for i
    using that preprocess_loop_nth [of i "replicate (length schema) 0" ?ns 0 schema]
    by (auto simp: image_iff)
  ultimately show ?thesis by blast
qed

theorem preprocess_symptoms_vector_witness:
  "\<exists>v. preprocess_symptoms (Some [''Fever'', ''cough'', ''Skin Rash '']) ['' SKIN RASH'', ''fever''] = Inr v \<and>
       length v = 3 \<and> v ! 0 = 1 \<and> v ! 1 = 0 \<and> v ! 2 = 1"
proof -
  have n1: "strip (lower ''Fever'') = ''fever''" by code_simp
  have n2: "strip (lower ''cough'') = ''cough''" by code_simp
  have n3: "strip (lower ''Skin Rash '') = ''skin rash''" by code_simp
  have n4: "strip (lower '' SKIN RASH'') = ''skin rash''" by code_simp
  have n5: "strip (lower ''fever'') = ''fever''" by code_simp
  from preprocess_symptoms_vector
         [of "[''Fever'', ''cough'', ''Skin Rash '']" "['' SKIN RASH'', ''fever'']"]
  obtain v where v: "preprocess_symptoms (Some [''Fever'', ''cough'', ''Skin Rash ''])
                       ['' SKIN RASH'', ''fever''] = Inr v"
    and len: "length v = length [''Fever'', ''cough'', ''Skin Rash '']"
    and nth: "\<forall>i < length [''Fever'', ''cough'', ''Skin Rash ''].
                v ! i = (if \<exists>s \<in> set ['' SKIN RASH'', ''fever''].
                              strip (lower ([''Fever'', ''cough'', ''Skin Rash ''] ! i)) = strip (lower s)
                         then 1 else 0)"
    by blast
  have "v ! 0 = 1" using nth [rule_format, of 0] by (simp add: n1 n4 n5)
  moreover have "v ! 1 = 0" using nth [rule_format, of 1] by (simp add: n2 n4 n5)
  moreover have "v ! 2 = 1" using nth [rule_format, of 2] by (simp add: n3 n4 n5)
  ultimately show ?thesis using v len by simp
qed

text \<open>
  C6: symptom matching is insensitive to letter case and to surrounding whitespace of
  the input strings. For every schema the inputs \<^verbatim>\<open>["FEVER"]\<close>, \<^verbatim>\<open>[" fever "]\<close> and
  \<^verbatim>\<open>["fever"]\<close> give the same feature vector; in general, input lists that agree after
  lower-casing give the same vector, and so do input lists that differ in whitespace
  around one entry.
\<close>

theorem symptom_matching_insensitive:
  "preprocess_symptoms cols [''FEVER''] = preprocess_symptoms cols [''fever''] \<and>
   preprocess_symptoms cols ['' fever ''] = preprocess_symptoms cols [''fever''] \<and>
   (map lower ss = map lower ts \<longrightarrow>
      preprocess_symptoms cols ss = preprocess_symptoms cols ts) \<and>
   ((\<forall>c \<in> set l. isspace c) \<and> (\<forall>c \<in> set r. isspace c) \<longrightarrow>
      preprocess_symptoms cols (xs @ (l @ s @ r) # ys) = preprocess_symptoms cols (xs @ s # ys))"
proof (intro conjI impI)
  have upper: "strip (lower ''FEVER'') = strip (lower ''fever'')" by code_simp
  show "preprocess_symptoms cols [''FEVER''] = preprocess_symptoms cols [''fever'']"
    by (simp add: preprocess_symptoms_def upper split: option.splits)
  have padded: "strip (lower '' fever '') = strip (lower ''fever'')" by code_simp
  show "preprocess_symptoms cols ['' fever ''] = preprocess_symptoms cols [''fever'']"
    by (simp add: preprocess_symptoms_def padded split: option.splits)
next
  assume "map lower ss = map lower ts"
  then have "map strip (map lower ss) = map strip (map lower ts)" by simp
  then have "map (\<lambda>s. strip (lower s)) ss = map (\<lambda>s. strip (lower s)) ts"
    by (simp add: comp_def)
  then show "preprocess_symptoms cols ss = preprocess_symptoms cols ts"
    by (simp add: preprocess_symptoms_def split: option.splits)
next
  assume "(\<forall>c \<in> set l. isspace c) \<and> (\<forall>c \<in> set r. isspace c)"
  then have "strip (lower (l @ s @ r)) = strip (lower s)"
    by (simp add: normalize_pad)
  then show "preprocess_symptoms cols (xs @ (l @ s @ r) # ys)
               = preprocess_symptoms cols (xs @ s # ys)"
    by (simp add: preprocess_symptoms_def split: option.splits)
qed

theorem symptom_matching_insensitive_witness:
  "map lower [''Fever'', ''COUGH''] = map lower [''fEVER'', ''cough''] \<and>
   preprocess_symptoms (Some [''Fever'', ''cough'', ''Skin Rash ''])  [''Fever'', ''COUGH'']
     = preprocess_symptoms (Some [''Fever'', ''cough'', ''Skin Rash '']) [''fEVER'', ''cough''] \<and>
   list_all isspace ''  '' \<and> list_all isspace [CHR 0x09, CHR 0x0A] \<and>
   preprocess_symptoms (Some [''Fever'', ''cough'', ''Skin Rash ''])
       ([''cough''] @ (''  '' @ ''fever'' @ [CHR 0x09, CHR 0x0A]) # [])
     = preprocess_symptoms (Some [''Fever'', ''cough'', ''Skin Rash '']) ([''cough''] @ ''fever'' # [])"
proof -
  have a: "map lower [''Fever'', ''COUGH''] = map lower [''fEVER'', ''cough'']" by code_simp
  have b: "list_all isspace ''  ''" by code_simp
  have c: "list_all isspace [CHR 0x09, CHR 0x0A]" by code_simp
  note t = symptom_matching_insensitive
             [of "Some [''Fever'', ''cough'', ''Skin Rash '']" "[''Fever'', ''COUGH'']"
                 "[''fEVER'', ''cough'']" "''  ''" "[CHR 0x09, CHR 0x0A]" "[''cough'']"
                 "''fever''" "[]"]
  from t a b c show ?thesis by (simp only: list_all_iff simp_thms)
qed

section \<open>Properties of inference and ranking\<close>

lemma length_softmax: "length (softmax logits) = length logits"
  by (simp add: softmax_def)

text \<open>
  Over the reals, subtracting a constant from every score (the largest one, say) does not
  change the result: the shift matters only to floating-point evaluation.
\<close>

lemma softmax_shift: "softmax (map (\<lambda>x. x - c) logits) = softmax logits"
proof -
  have "sum_list (map exp (map (\<lambda>x. x - c) logits)) = sum_list (map exp logits) / exp c"
    by (induction logits) (simp_all add: exp_diff add_divide_distrib)
  then show ?thesis
    by (simp add: softmax_def exp_diff)
qed

lemma exp_le_sum_list: "(x::real) \<in> set xs \<Longrightarrow> exp x \<le> sum_list (map exp xs)"
proof (induction xs)
  case Nil
  then show ?case by simp
next
  case (Cons a xs)
  have nonneg: "0 \<le> sum_list (map exp xs)" by (auto intro!: sum_list_nonneg)
  show ?case
  proof (cases "x = a")
    case True
    then show ?thesis using nonneg by simp
  next
    case False
    then have "exp x \<le> sum_list (map exp xs)" using Cons by simp
    moreover have "0 \<le> exp a" by simp
    ultimately have "exp x \<le> exp a + sum_list (map exp xs)" by linarith
    then show ?thesis by simp
  qed
qed

lemma softmax_bounds: "p \<in> set (softmax logits) \<Longrightarrow> 0 \<le> p \<and> p \<le> 1"
proof -
  assume "p \<in> set (softmax logits)"
  then obtain x where x: "x \<in> set logits" and p: "p = exp x / sum_list (map exp logits)"
    by (auto simp: softmax_def)
  have le: "exp x \<le> sum_list (map exp logits)" using x by (rule exp_le_sum_list)
  have pos: "0 < sum_list (map exp logits)"
    using le exp_gt_zero [of x] by linarith
  show ?thesis using le pos by (simp add: p)
qed

lemma length_argsort: "length (argsort a) = length a"
  by (simp add: argsort_def)

lemma set_argsort: "set (argsort a) = {0..<length a}"
  by (simp add: argsort_def)

lemma sorted_argsort: "sorted (map (\<lambda>i. a ! i) (argsort a))"
  by (simp add: argsort_def)

lemma length_last_3: "length (last_3 xs) = min 3 (length xs)"
  by (simp add: last_3_def)

lemma set_last_3: "set (last_3 xs) \<subseteq> set xs"
  by (simp add: last_3_def set_drop_subset)

lemma sorted_last_3: "sorted (map f xs) \<Longrightarrow> sorted (map f (last_3 xs))"
  by (simp add: last_3_def drop_map [symmetric])

lemma top_3_indices_length:
  "length (rev (last_3 (argsort a))) = min 3 (length a)"
  by (simp add: length_last_3 length_argsort)

lemma top_3_indices_range:
  "i \<in> set (rev (last_3 (argsort a))) \<Longrightarrow> i < length a"
  using set_last_3 [of "argsort a"] by (auto simp: set_argsort)

lemma top_3_indices_descending:
  "sorted_wrt (\<ge>) (map (\<lambda>i. a ! i) (rev (last_3 (argsort a))))"
proof -
  have "sorted (map (\<lambda>i. a ! i) (last_3 (argsort a)))"
    by (rule sorted_last_3) (rule sorted_argsort)
  then show ?thesis by (simp add: rev_map [symmetric] sorted_wrt_rev)
qed

lemma top_3_loop_prefix:
  "top_3_loop L probs idxs acc = Inr ps \<Longrightarrow> \<exists>ps'. ps = acc @ ps'"
proof (induction idxs arbitrary: acc)
  case Nil
  then show ?case by simp
next
  case (Cons i idxs)
  from Cons.prems obtain d c where
    "top_3_loop L probs idxs (acc @ [\<lparr>disease = d, prediction.confidence = c\<rparr>]) = Inr ps"
    by (auto split: sum.splits)
  from Cons.IH [OF this] show ?case by auto
qed

lemma top_3_loop_in_range:
  "\<forall>i \<in> set idxs. i < length labels \<and> i < length probs \<Longrightarrow>
   top_3_loop (Some labels) probs idxs acc =
     Inr (acc @ map (\<lambda>i. \<lparr>disease = labels ! i, prediction.confidence = probs ! i\<rparr>) idxs)"
  by (induction idxs arbitrary: acc) (simp_all add: getitem_def getitem_global_def)

lemma getitem_0: "getitem xs 0 = Inr i \<Longrightarrow> \<exists>rest. xs = i # rest"
  by (cases xs) (simp_all add: getitem_def)

lemma predict_disease_try_top:
  assumes "predict_disease_try m g s = (Inr resp, calls)"
  shows "\<exists>p ps. top_3_predictions resp = p # ps \<and>
                predicted_disease resp = disease p \<and>
                confidence resp = prediction.confidence p"
proof -
  from assms obtain logits top_3 i0 d c where
    loop: "top_3_loop (disease_labels g) (softmax logits)
             (rev (last_3 (argsort (softmax logits)))) [] = Inr top_3"
    and first: "getitem (rev (last_3 (argsort (softmax logits)))) 0 = Inr i0"
    and d: "getitem_global (disease_labels g) i0 = Inr d"
    and c: "getitem (softmax logits) i0 = Inr c"
    and resp: "resp = \<lparr>predicted_disease = d, confidence = c, top_3_predictions = top_3\<rparr>"
    by (auto simp: predict_disease_try_def Let_def split: sum.splits)
  from getitem_0 [OF first] obtain rest where
    idxs: "rev (last_3 (argsort (softmax logits))) = i0 # rest" by blast
  from loop have
    "top_3_loop (disease_labels g) (softmax logits) rest
       ([] @ [\<lparr>disease = d, prediction.confidence = c\<rparr>]) = Inr top_3"
    unfolding idxs by (simp add: d c)
  from top_3_loop_prefix [OF this] obtain ps where
    "top_3 = \<lparr>disease = d, prediction.confidence = c\<rparr> # ps" by auto
  then show ?thesis by (simp add: resp)
qed

lemma predict_disease_try_success:
  assumes v: "preprocess_symptoms (symptom_columns g) s = Inr v"
    and logits: "m v = Inr logits"
    and nonempty: "logits \<noteq> []"
    and labels: "disease_labels g = Some labels"
    and fit: "length logits \<le> length labels"
  shows "predict_disease_try m g s =
           (Inr \<lparr>predicted_disease = labels ! hd (rev (last_3 (argsort (softmax logits)))),
                 confidence = softmax logits ! hd (rev (last_3 (argsort (softmax logits)))),
                 top_3_predictions =
                   map (\<lambda>i. \<lparr>disease = labels ! i, prediction.confidence = softmax logits ! i\<rparr>)
                       (rev (last_3 (argsort (softmax logits))))\<rparr>,
            [Vectorizer_call s, Classifier_call v])"
proof -
  let ?probs = "softmax logits"
  let ?idxs = "rev (last_3 (argsort ?probs))"
  have range: "\<forall>i \<in> set ?idxs. i < length labels \<and> i < length ?probs"
  proof
    fix i assume "i \<in> set ?idxs"
    then have "i < length ?probs" by (rule top_3_indices_range)
    then show "i < length labels \<and> i < length ?probs"
      using fit by (simp add: length_softmax)
  qed
  have loop: "top_3_loop (Some labels) ?probs ?idxs [] =
                Inr ([] @ map (\<lambda>i. \<lparr>disease = labels ! i, prediction.confidence = ?probs ! i\<rparr>) ?idxs)"
    by (rule top_3_loop_in_range [OF range])
  have "length ?idxs = min 3 (length ?probs)" by (rule top_3_indices_length)
  moreover have "0 < length logits" using nonempty by simp
  ultimately have "0 < length ?idxs" by (simp add: length_softmax)
  then have ne: "?idxs \<noteq> []" by (rule length_greater_0_conv [THEN iffD1])
  then have first: "getitem ?idxs 0 = Inr (hd ?idxs)"
    by (simp add: getitem_def hd_conv_nth)
  have "hd ?idxs \<in> set ?idxs" using ne by (rule hd_in_set)
  then have hd_range: "hd ?idxs < length labels \<and> hd ?idxs < length ?probs"
    using range by blast
  show ?thesis
    using loop first hd_range
    by (simp add: predict_disease_try_def v logits labels Let_def getitem_def getitem_global_def)
qed

section \<open>The batch loop\<close>

lemma batch_loop_step:
  "batch_loop m g (item # rest) results calls =
     (case predict_disease_try m g item of
        (Inl e, cs) \<Rightarrow> (Inl e, calls @ cs)
      | (Inr r, cs) \<Rightarrow>
          batch_loop m g rest
            (results @ [\<lparr>predicted_disease = predicted_disease r, confidence = confidence r,
                          top_3_predictions = top_3_predictions r, symptoms = item\<rparr>])
            (calls @ cs))"
  by (simp add: predict_disease_try_def Let_def split: sum.splits)

lemma batch_loop_Inr:
  "batch_loop m g items results calls = (Inr out, calls') \<Longrightarrow>
   \<exists>rs. out = results @ rs \<and>
        list_all2 (\<lambda>item b. \<exists>r cs. predict_disease_try m g item = (Inr r, cs) \<and>
                     b = \<lparr>predicted_disease = predicted_disease r, confidence = confidence r,
                          top_3_predictions = top_3_predictions r, symptoms = item\<rparr>) items rs \<and>
        calls' = calls @ concat (map (\<lambda>item. snd (predict_disease_try m g item)) items)"
proof (induction items arbitrary: results calls)
  case Nil
  then show ?case by simp
next
  case (Cons item items)
  from Cons.prems obtain r cs where
    tr: "predict_disease_try m g item = (Inr r, cs)"
    and rest: "batch_loop m g items
                 (results @ [\<lparr>predicted_disease = predicted_disease r, confidence = confidence r,
                               top_3_predictions = top_3_predictions r, symptoms = item\<rparr>])
                 (calls @ cs) = (Inr out, calls')"
    unfolding batch_loop_step by (auto split: prod.splits sum.splits)
  from Cons.IH [OF rest] obtain rs where
    "out = (results @ [\<lparr>predicted_disease = predicted_disease r, confidence = confidence r,
                         top_3_predictions = top_3_predictions r, symptoms = item\<rparr>]) @ rs"
    and "list_all2 (\<lambda>item b. \<exists>r cs. predict_disease_try m g item = (Inr r, cs) \<and>
                     b = \<lparr>predicted_disease = predicted_disease r, confidence = confidence r,
                          top_3_predictions = top_3_predictions r, symptoms = item\<rparr>) items rs"
    and "calls' = (calls @ cs) @ concat (map (\<lambda>item. snd (predict_disease_try m g item)) items)"
    by blast
  then show ?case using tr by auto
qed

lemma batch_loop_total:
  "\<forall>item \<in> set items. \<exists>r cs. predict_disease_try m g item = (Inr r, cs) \<Longrightarrow>
   \<exists>out calls'. batch_loop m g items results calls = (Inr out, calls')"
proof (induction items arbitrary: results calls)
  case Nil
  then show ?case by simp
next
  case (Cons item items)
  from Cons.prems obtain r cs where "predict_disease_try m g item = (Inr r, cs)" by auto
  moreover from Cons.prems have
    "\<forall>item \<in> set items. \<exists>r cs. predict_disease_try m g item = (Inr r, cs)" by simp
  ultimately show ?case unfolding batch_loop_step using Cons.IH by simp
qed

lemma predict_disease_batch_Inr:
  assumes "predict_disease_batch g symptoms_list = (Inr results, calls)"
  shows "\<exists>m. model g = Some m \<and> batch_loop m g symptoms_list [] [] = (Inr results, calls)"
  using assms
  by (auto simp: predict_disease_batch_def split: option.splits prod.splits sum.splits)

lemma preprocess_loop_no_inputs: "preprocess_loop [] es v = v"
  by (induction "[] :: string list" es v rule: preprocess_loop.induct) (simp_all add: Let_def)

lemma preprocess_symptoms_empty:
  "preprocess_symptoms (Some schema) [] = Inr (replicate (length schema) 0)"
  by (simp add: preprocess_symptoms_def preprocess_loop_no_inputs)



section \<open>The example deployment, evaluated\<close>

lemma example_labels:
  "disease_labels example_state = Some [''Flu'', ''Cold'', ''Allergy'', ''Measles'']"
  by (simp add: example_state_def)

lemma example_model_loaded: "model example_state = Some example_model"
  by (simp add: example_state_def)

lemma example_logits: "example_model [1, 0, 0] = Inr [0, ln 6, ln 3, ln 10]"
  by (simp add: example_model_def)

lemma example_logits_zero: "example_model [0, 0, 0] = Inr [ln 10, ln 6, ln 3, 0]"
  by (simp add: example_model_def)

lemma example_vector:
  "preprocess_symptoms (symptom_columns example_state) [''fever''] = Inr [1, 0, 0]"
proof -
  have "preprocess_symptoms (Some [''Fever'', ''cough'', ''Skin Rash '']) [''fever''] = Inr [1, 0, 0]"
    by code_simp
  then show ?thesis by (simp add: example_state_def)
qed

lemma example_vector_empty:
  "preprocess_symptoms (symptom_columns example_state) [] = Inr [0, 0, 0]"
  by (simp add: example_state_def preprocess_symptoms_empty)

lemma example_softmax: "softmax [0, ln 6, ln 3, ln 10] = [1/20, 3/10, 3/20, 1/2]"
  by (simp add: softmax_def)

lemma example_argsort: "argsort [1/20, 3/10, 3/20, 1/2] = [0, 2, 1, 3]"
  by (simp add: argsort_def upt_rec)

lemma example_softmax_zero: "softmax [ln 10, ln 6, ln 3, 0] = [1/2, 3/10, 3/20, 1/20]"
  by (simp add: softmax_def)

lemma example_argsort_zero: "argsort [1/2, 3/10, 3/20, 1/20] = [3, 2, 1, 0]"
  by (simp add: argsort_def upt_rec)

lemma try_example:
  "predict_disease_try example_model example_state [''fever''] =
     (Inr \<lparr>predicted_disease = ''Measles'', confidence = 1/2,
           top_3_predictions =
             [\<lparr>disease = ''Measles'', prediction.confidence = 1/2\<rparr>,
              \<lparr>disease = ''Cold'', prediction.confidence = 3/10\<rparr>,
              \<lparr>disease = ''Allergy'', prediction.confidence = 3/20\<rparr>]\<rparr>,
      [Vectorizer_call [''fever''], Classifier_call [1, 0, 0]])"
  using predict_disease_try_success
          [where m = example_model and logits = "[0, ln 6, ln 3, ln 10]",
           OF example_vector example_logits _ example_labels]
  by (simp add: example_softmax example_argsort last_3_def)

lemma try_example_empty:
  "predict_disease_try example_model example_state [] =
     (Inr \<lparr>predicted_disease = ''Flu'', confidence = 1/2,
           top_3_predictions =
             [\<lparr>disease = ''Flu'', prediction.confidence = 1/2\<rparr>,
              \<lparr>disease = ''Cold'', prediction.confidence = 3/10\<rparr>,
              \<lparr>disease = ''Allergy'', prediction.confidence = 3/20\<rparr>]\<rparr>,
      [Vectorizer_call [], Classifier_call [0, 0, 0]])"
  using predict_disease_try_success
          [where m = example_model and logits = "[ln 10, ln 6, ln 3, 0]",
           OF example_vector_empty example_logits_zero _ example_labels]
  by (simp add: example_softmax_zero example_argsort_zero last_3_def)

lemma predict_example:
  "predict_disease example_state [''fever''] =
     (Inr \<lparr>predicted_disease = ''Measles'', confidence = 1/2,
           top_3_predictions =
             [\<lparr>disease = ''Measles'', prediction.confidence = 1/2\<rparr>,
              \<lparr>disease = ''Cold'', prediction.confidence = 3/10\<rparr>,
              \<lparr>disease = ''Allergy'', prediction.confidence = 3/20\<rparr>]\<rparr>,
      [Vectorizer_call [''fever''], Classifier_call [1, 0, 0]])"
  by (simp add: predict_disease_def example_model_loaded try_example)

lemma batch_example:
  "predict_disease_batch example_state [[''fever''], []] =
     (Inr [\<lparr>predicted_disease = ''Measles'', confidence = 1/2,
            top_3_predictions =
              [\<lparr>disease = ''Measles'', prediction.confidence = 1/2\<rparr>,
               \<lparr>disease = ''Cold'', prediction.confidence = 3/10\<rparr>,
               \<lparr>disease = ''Allergy'', prediction.confidence = 3/20\<rparr>],
            symptoms = [''fever'']\<rparr>,
           \<lparr>predicted_disease = ''Flu'', confidence = 1/2,
            top_3_predictions =
              [\<lparr>disease = ''Flu'', prediction.confidence = 1/2\<rparr>,
               \<lparr>disease = ''Cold'', prediction.confidence = 3/10\<rparr>,
               \<lparr>disease = ''Allergy'', prediction.confidence = 3/20\<rparr>],
            symptoms = []\<rparr>],
      [Vectorizer_call [''fever''], Classifier_call [1, 0, 0],
       Vectorizer_call [], Classifier_call [0, 0, 0]])"
  by (simp add: predict_disease_batch_def example_model_loaded batch_loop_step
        try_example try_example_empty del: batch_loop.simps(2))

lemma tie_vector: "preprocess_symptoms (symptom_columns tie_state) [''fever''] = Inr [1]"
proof -
  have "preprocess_symptoms (Some [''fever'']) [''fever''] = Inr [1]"
    by code_simp
  then show ?thesis by (simp add: tie_state_def)
qed

lemma tie_softmax: "softmax [0, 0] = [1/2, 1/2]"
  by (simp add: softmax_def)

lemma tie_argsort: "argsort [1/2, 1/2] = [0, 1]"
  by (simp add: argsort_def upt_rec)

lemma predict_tie:
  "predict_disease tie_state [''fever''] =
     (Inr \<lparr>predicted_disease = ''Cold'', confidence = 1/2,
           top_3_predictions =
             [\<lparr>disease = ''Cold'', prediction.confidence = 1/2\<rparr>,
              \<lparr>disease = ''Flu'', prediction.confidence = 1/2\<rparr>]\<rparr>,
      [Vectorizer_call [''fever''], Classifier_call [1]])"
proof -
  have "predict_disease_try tie_model tie_state [''fever''] =
     (Inr \<lparr>predicted_disease = ''Cold'', confidence = 1/2,
           top_3_predictions =
             [\<lparr>disease = ''Cold'', prediction.confidence = 1/2\<rparr>,
              \<lparr>disease = ''Flu'', prediction.confidence = 1/2\<rparr>]\<rparr>,
      [Vectorizer_call [''fever''], Classifier_call [1]])"
  proof -
    have labels: "disease_labels tie_state = Some [''Flu'', ''Cold'']"
      by (simp add: tie_state_def)
    have logits: "tie_model [1] = Inr [0, 0]"
      by (simp add: tie_model_def)
    show ?thesis
      using predict_disease_try_success
              [where m = tie_model and logits = "[0, 0]", OF tie_vector logits _ labels]
      by (simp add: tie_softmax tie_argsort last_3_def)
  qed
  then show ?thesis
    by (simp add: predict_disease_def tie_state_def)
qed

section \<open>The endpoints\<close>

text \<open>
  C2 (amended): for every non-empty symptom list, recognised or not, on which the
  classifier returns one score per disease label (M of them, M at least 1), the
  \<^verbatim>\<open>/predict\<close> response exists, its \<^verbatim>\<open>top_3_predictions\<close> has length min(3, M), its
  confidences are in descending order in the weak sense (equal neighbours can occur),
  and each confidence lies in [0, 1].
\<close>

theorem top_3_predictions_ranked:
  assumes m: "model g = Some m"
    and nonempty: "request_symptoms \<noteq> []"
    and v: "preprocess_symptoms (symptom_columns g) request_symptoms = Inr v"
    and logits: "m v = Inr logits"
    and labels: "disease_labels g = Some labels"
    and len: "length logits = length labels"
    and M: "labels \<noteq> []"
  shows "\<exists>response calls.
           predict_disease g request_symptoms = (Inr response, calls) \<and>
           length (top_3_predictions response) = min 3 (length labels) \<and>
           sorted_wrt (\<ge>) (map prediction.confidence (top_3_predictions response)) \<and>
           (\<forall>p \<in> set (top_3_predictions response).
              0 \<le> prediction.confidence p \<and> prediction.confidence p \<le> 1)"
proof -
  let ?probs = "softmax logits"
  let ?idxs = "rev (last_3 (argsort ?probs))"
  let ?top = "map (\<lambda>i. \<lparr>disease = labels ! i, prediction.confidence = ?probs ! i\<rparr>) ?idxs"
  let ?response = "\<lparr>predicted_disease = labels ! hd ?idxs, confidence = ?probs ! hd ?idxs,
                    top_3_predictions = ?top\<rparr>"
  have ne: "logits \<noteq> []" using len M by auto
  have "predict_disease_try m g request_symptoms =
          (Inr ?response, [Vectorizer_call request_symptoms, Classifier_call v])"
    using v logits ne labels by (rule predict_disease_try_success) (simp add: len)
  then have run: "predict_disease g request_symptoms =
          (Inr ?response, [Vectorizer_call request_symptoms, Classifier_call v])"
    by (simp add: predict_disease_def m nonempty)
  have "length ?top = min 3 (length labels)"
    by (simp add: top_3_indices_length [simplified] length_softmax len)
  moreover have conf: "map prediction.confidence ?top = map (\<lambda>i. ?probs ! i) ?idxs"
    by (simp add: comp_def)
  have "sorted_wrt (\<ge>) (map prediction.confidence ?top)"
    unfolding conf by (rule top_3_indices_descending)
  moreover have "0 \<le> prediction.confidence p \<and> prediction.confidence p \<le> 1"
    if "p \<in> set ?top" for p
  proof -
    from that obtain i where i: "i \<in> set ?idxs" and p: "prediction.confidence p = ?probs ! i"
      by auto
    from i have "i < length ?probs" by (rule top_3_indices_range)
    then have "?probs ! i \<in> set ?probs" by (rule nth_mem)
    then show ?thesis unfolding p by (rule softmax_bounds)
  qed
  ultimately show ?thesis using run by auto
qed

theorem top_3_predictions_ranked_witness:
  "model example_state = Some example_model \<and>
   [''fever''] \<noteq> [] \<and>
   preprocess_symptoms (symptom_columns example_state) [''fever''] = Inr [1, 0, 0] \<and>
   example_model [1, 0, 0] = Inr [0, ln 6, ln 3, ln 10] \<and>
   disease_labels example_state = Some [''Flu'', ''Cold'', ''Allergy'', ''Measles''] \<and>
   length [0, ln 6, ln 3, ln 10 :: real] = length [''Flu'', ''Cold'', ''Allergy'', ''Measles''] \<and>
   [''Flu'', ''Cold'', ''Allergy'', ''Measles''] \<noteq> [] \<and>
   (\<exists>response calls.
      predict_disease example_state [''fever''] = (Inr response, calls) \<and>
      length (top_3_predictions response) = 3 \<and>
      sorted_wrt (\<ge>) (map prediction.confidence (top_3_predictions response)) \<and>
      (\<forall>p \<in> set (top_3_predictions response).
         0 \<le> prediction.confidence p \<and> prediction.confidence p \<le> 1))"
proof -
  have ne: "[''fever''] \<noteq> []" by simp
  have len: "length [0, ln 6, ln 3, ln 10 :: real]
               = length [''Flu'', ''Cold'', ''Allergy'', ''Measles'']" by simp
  have M: "[''Flu'', ''Cold'', ''Allergy'', ''Measles''] \<noteq> []" by simp
  from top_3_predictions_ranked
         [where m = example_model and logits = "[0, ln 6, ln 3, ln 10]",
          OF example_model_loaded ne example_vector example_logits example_labels len M]
  obtain response calls where
    "predict_disease example_state [''fever''] = (Inr response, calls)"
    "length (top_3_predictions response) = min 3 (length [''Flu'', ''Cold'', ''Allergy'', ''Measles''])"
    "sorted_wrt (\<ge>) (map prediction.confidence (top_3_predictions response))"
    "\<forall>p \<in> set (top_3_predictions response).
       0 \<le> prediction.confidence p \<and> prediction.confidence p \<le> 1"
    by blast
  moreover have "min 3 (length [''Flu'', ''Cold'', ''Allergy'', ''Measles'']) = 3" by simp
  ultimately have
    "\<exists>response calls.
      predict_disease example_state [''fever''] = (Inr response, calls) \<and>
      length (top_3_predictions response) = 3 \<and>
      sorted_wrt (\<ge>) (map prediction.confidence (top_3_predictions response)) \<and>
      (\<forall>p \<in> set (top_3_predictions response).
         0 \<le> prediction.confidence p \<and> prediction.confidence p \<le> 1)"
    by (simp only:) blast
  then show ?thesis
    using example_model_loaded ne example_vector example_logits example_labels len M
    by (simp only: simp_thms)
qed

text \<open>
  C2 as stated fails: the confidences need not be strictly descending. Two equal scores
  give two equal probabilities, here 1/2 and 1/2 for the recognised symptom \<^verbatim>\<open>fever\<close>,
  whichever of the two tied labels the sort puts first.
\<close>

theorem strictly_descending_counterexample:
  "[''fever''] \<noteq> [] \<and>
   strip (lower ''fever'') \<in> set (map (\<lambda>c. strip (lower c)) [''fever'']) \<and>
   symptom_columns tie_state = Some [''fever''] \<and>
   predict_disease tie_state [''fever''] =
     (Inr \<lparr>predicted_disease = ''Cold'', confidence = 1/2,
           top_3_predictions =
             [\<lparr>disease = ''Cold'', prediction.confidence = 1/2\<rparr>,
              \<lparr>disease = ''Flu'', prediction.confidence = 1/2\<rparr>]\<rparr>,
      [Vectorizer_call [''fever''], Classifier_call [1]]) \<and>
   \<not> sorted_wrt (>) (map prediction.confidence
                        (top_3_predictions (projr (fst (predict_disease tie_state [''fever''])))))"
proof -
  have "strip (lower ''fever'') \<in> set (map (\<lambda>c. strip (lower c)) [''fever''])" by simp
  moreover have "symptom_columns tie_state = Some [''fever'']" by (simp add: tie_state_def)
  moreover have "\<not> sorted_wrt (>) (map prediction.confidence
                        (top_3_predictions (projr (fst (predict_disease tie_state [''fever''])))))"
    by (simp add: predict_tie sorted_wrt2_simps del: sorted_wrt.simps)
  ultimately show ?thesis by (simp add: predict_tie)
qed

text \<open>
  C3: in every successful \<^verbatim>\<open>/predict\<close> response \<^verbatim>\<open>top_3_predictions\<close> is non-empty, the
  top-level \<^verbatim>\<open>predicted_disease\<close> is the disease of its first element and the top-level
  \<^verbatim>\<open>confidence\<close> is the confidence of its first element.
\<close>

theorem top_prediction_is_first:
  assumes "predict_disease g request_symptoms = (Inr response, calls)"
  shows "\<exists>p ps. top_3_predictions response = p # ps \<and>
                predicted_disease response = disease p \<and>
                confidence response = prediction.confidence p"
proof -
  from assms obtain m where
    "predict_disease_try m g request_symptoms = (Inr response, calls)"
    by (auto simp: predict_disease_def split: option.splits if_splits sum.splits prod.splits)
  then show ?thesis by (rule predict_disease_try_top)
qed

theorem top_prediction_is_first_witness:
  "\<exists>response calls p ps.
     predict_disease example_state [''fever''] = (Inr response, calls) \<and>
     top_3_predictions response = p # ps \<and>
     predicted_disease response = disease p \<and>
     confidence response = prediction.confidence p \<and>
     disease p = ''Measles'' \<and> prediction.confidence p = 1/2"
  using top_prediction_is_first [OF predict_example] predict_example by auto

text \<open>
  C4: with the model loaded, a \<^verbatim>\<open>/predict\<close> request with an empty symptom list is answered
  with HTTP 400, and the handler has called neither the vectorizer nor the classifier.
\<close>

theorem empty_symptoms_rejected:
  "model g \<noteq> None \<Longrightarrow>
   predict_disease g [] = (Inl (HTTPException 400 No_symptoms_provided), [])"
  by (auto simp: predict_disease_def)

theorem empty_symptoms_rejected_witness:
  "model example_state \<noteq> None \<and>
   predict_disease example_state [] = (Inl (HTTPException 400 No_symptoms_provided), [])"
  using empty_symptoms_rejected [of example_state] by (simp add: example_state_def)

text \<open>
  The two endpoints repeat the same inference and ranking code. When the batch endpoint
  returns, it returns exactly one result per symptom list, in the order of the inputs,
  each carrying its own symptom list; and for every item that is a non-empty list, the
  result's \<^verbatim>\<open>predicted_disease\<close>, \<^verbatim>\<open>confidence\<close> and \<^verbatim>\<open>top_3_predictions\<close> are those of
  the \<^verbatim>\<open>/predict\<close> response for that list.
\<close>

lemma batch_matches_single:
  assumes "predict_disease_batch g symptoms_list = (Inr results, calls)"
  shows "length results = length symptoms_list \<and>
         (\<forall>i < length symptoms_list.
            symptoms (results ! i) = symptoms_list ! i \<and>
            (symptoms_list ! i \<noteq> [] \<longrightarrow>
               (\<exists>response calls_i.
                  predict_disease g (symptoms_list ! i) = (Inr response, calls_i) \<and>
                  predicted_disease (results ! i) = predicted_disease response \<and>
                  confidence (results ! i) = confidence response \<and>
                  top_3_predictions (results ! i) = top_3_predictions response)))"
proof -
  from predict_disease_batch_Inr [OF assms] obtain m where
    m: "model g = Some m" and loop: "batch_loop m g symptoms_list [] [] = (Inr results, calls)"
    by blast
  from batch_loop_Inr [OF loop] have all:
    "list_all2 (\<lambda>item b. \<exists>r cs. predict_disease_try m g item = (Inr r, cs) \<and>
                 b = \<lparr>predicted_disease = predicted_disease r, confidence = confidence r,
                      top_3_predictions = top_3_predictions r, symptoms = item\<rparr>)
       symptoms_list results"
    by simp
  then have len: "length results = length symptoms_list"
    by (simp add: list_all2_lengthD)
  moreover have "symptoms (results ! i) = symptoms_list ! i \<and>
            (symptoms_list ! i \<noteq> [] \<longrightarrow>
               (\<exists>response calls_i.
                  predict_disease g (symptoms_list ! i) = (Inr response, calls_i) \<and>
                  predicted_disease (results ! i) = predicted_disease response \<and>
                  confidence (results ! i) = confidence response \<and>
                  top_3_predictions (results ! i) = top_3_predictions response))"
    if "i < length symptoms_list" for i
  proof -
    from list_all2_nthD [OF all that] obtain r cs where
      tr: "predict_disease_try m g (symptoms_list ! i) = (Inr r, cs)"
      and b: "results ! i = \<lparr>predicted_disease = predicted_disease r, confidence = confidence r,
                              top_3_predictions = top_3_predictions r,
                              symptoms = symptoms_list ! i\<rparr>"
      by blast
    have "predict_disease g (symptoms_list ! i) = (Inr r, cs)" if "symptoms_list ! i \<noteq> []"
      using that by (simp add: predict_disease_def m tr)
    then show ?thesis by (auto simp: b)
  qed
  ultimately show ?thesis by blast
qed

text \<open>
  The batch endpoint does return when no item raises, that is, when the inference on
  every item produces a ranking; the k results then exist and are as above.
\<close>

lemma batch_matches_single_total:
  assumes m: "model g = Some m"
    and ok: "\<forall>item \<in> set symptoms_list. \<exists>r cs. predict_disease_try m g item = (Inr r, cs)"
  shows "\<exists>results calls.
           predict_disease_batch g symptoms_list = (Inr results, calls) \<and>
           length results = length symptoms_list \<and>
           (\<forall>i < length symptoms_list.
              symptoms (results ! i) = symptoms_list ! i \<and>
              (symptoms_list ! i \<noteq> [] \<longrightarrow>
                 (\<exists>response calls_i.
                    predict_disease g (symptoms_list ! i) = (Inr response, calls_i) \<and>
                    predicted_disease (results ! i) = predicted_disease response \<and>
                    confidence (results ! i) = confidence response \<and>
                    top_3_predictions (results ! i) = top_3_predictions response)))"
proof -
  from batch_loop_total [OF ok, of "[]" "[]"] obtain results calls where
    "batch_loop m g symptoms_list [] [] = (Inr results, calls)" by blast
  then have run: "predict_disease_batch g symptoms_list = (Inr results, calls)"
    by (simp add: predict_disease_batch_def m)
  from batch_matches_single [OF run] run show ?thesis by blast
qed

lemma batch_matches_single_example:
  "\<exists>results calls.
     predict_disease_batch example_state [[''fever''], []] = (Inr results, calls) \<and>
     length results = 2 \<and>
     symptoms (results ! 0) = [''fever''] \<and> symptoms (results ! 1) = [] \<and>
     (\<exists>response calls_0.
        predict_disease example_state [''fever''] = (Inr response, calls_0) \<and>
        predicted_disease (results ! 0) = predicted_disease response \<and>
        confidence (results ! 0) = confidence response \<and>
        top_3_predictions (results ! 0) = top_3_predictions response)"
proof -
  note t = batch_matches_single [OF batch_example]
  from t have "length [[''fever''], [] :: string list] = 2" by simp
  from t [THEN conjunct2, rule_format, of 0] t [THEN conjunct2, rule_format, of 1] t [THEN conjunct1]
  show ?thesis by (simp add: batch_example)
qed

text \<open>
  C5: every result of a batch on which no item raises is to equal what \<^verbatim>\<open>/predict\<close>
  produces for the same symptom list. The code breaks this for an item that is the empty
  list. \<^verbatim>\<open>predict_disease\<close> guards against it (\<^verbatim>\<open>if not request.symptoms ...\<close>, HTTP 400,
  nothing called); the loop of \<^verbatim>\<open>predict_disease_batch\<close> has no such guard. On the batch
  \<^verbatim>\<open>[[]]\<close> no item raises, the classifier is run on the all-zero vector and a prediction
  is returned for the empty list, while \<^verbatim>\<open>/predict\<close> answers 400 for that list.
\<close>

theorem batch_empty_item_divergence:
  "predict_disease_batch example_state [[]] =
     (Inr [\<lparr>predicted_disease = ''Flu'', confidence = 1/2,
            top_3_predictions =
              [\<lparr>disease = ''Flu'', prediction.confidence = 1/2\<rparr>,
               \<lparr>disease = ''Cold'', prediction.confidence = 3/10\<rparr>,
               \<lparr>disease = ''Allergy'', prediction.confidence = 3/20\<rparr>],
            symptoms = []\<rparr>],
      [Vectorizer_call [], Classifier_call [0, 0, 0]]) \<and>
   predict_disease example_state [] = (Inl (HTTPException 400 No_symptoms_provided), [])"
  by (simp add: predict_disease_batch_def predict_disease_def example_model_loaded
        batch_loop_step try_example_empty del: batch_loop.simps(2))

section \<open>Unrecognised input\<close>

lemma preprocess_symptoms_unrecognized:
  assumes "\<forall>u \<in> set extra. \<forall>c \<in> set schema. strip (lower u) \<noteq> strip (lower c)"
  shows "preprocess_symptoms (Some schema) (inputs @ extra) = preprocess_symptoms (Some schema) inputs"
proof -
  have "\<forall>(i, c) \<in> set (enumerate 0 schema).
          strip (lower c) \<notin> set (map (\<lambda>s. strip (lower s)) extra)"
    using assms by (auto simp: in_set_enumerate_eq) (metis nth_mem)
  then show ?thesis
    by (simp add: preprocess_symptoms_def preprocess_loop_unrecognized)
qed

lemma predict_disease_try_cong:
  "preprocess_symptoms (symptom_columns g) s = preprocess_symptoms (symptom_columns g) s' \<Longrightarrow>
   fst (predict_disease_try m g s) = fst (predict_disease_try m g s')"
  by (simp add: predict_disease_try_def Let_def split: sum.splits)

lemma predict_disease_fst:
  "model g = Some m \<Longrightarrow> s \<noteq> [] \<Longrightarrow>
   fst (predict_disease g s) =
     (case fst (predict_disease_try m g s) of
        Inl e \<Rightarrow> Inl (HTTPException 500 (Prediction_error e))
      | Inr r \<Rightarrow> Inr r)"
  by (simp add: predict_disease_def split: prod.splits sum.splits)

text \<open>
  C7: input strings that, once normalised, match no schema entry change nothing. For
  every input list, the list with such strings appended is vectorised, without raising,
  to the same feature vector as the list alone; hence the inference that follows gives
  the same prediction or the same exception, and so does \<^verbatim>\<open>/predict\<close> whenever the list
  alone is non-empty (an empty list never reaches the vectorizer there). The model has
  no channel for warnings: the vectorizer only returns its vector.
\<close>

theorem unrecognized_symptoms_ignored:
  assumes "\<forall>u \<in> set extra. \<forall>c \<in> set schema. strip (lower u) \<noteq> strip (lower c)"
  shows "(\<exists>v. preprocess_symptoms (Some schema) inputs = Inr v \<and>
              preprocess_symptoms (Some schema) (inputs @ extra) = Inr v) \<and>
         (symptom_columns g = Some schema \<longrightarrow>
            fst (predict_disease_try m g (inputs @ extra)) = fst (predict_disease_try m g inputs)) \<and>
         (symptom_columns g = Some schema \<and> inputs \<noteq> [] \<longrightarrow>
            fst (predict_disease g (inputs @ extra)) = fst (predict_disease g inputs))"
proof -
  note same = preprocess_symptoms_unrecognized [OF assms, of inputs]
  have vec: "\<exists>v. preprocess_symptoms (Some schema) inputs = Inr v \<and>
              preprocess_symptoms (Some schema) (inputs @ extra) = Inr v"
    unfolding same by (simp add: preprocess_symptoms_def)
  have tr: "fst (predict_disease_try m' g (inputs @ extra)) = fst (predict_disease_try m' g inputs)"
    if "symptom_columns g = Some schema" for m'
    by (rule predict_disease_try_cong) (simp add: that same)
  have "fst (predict_disease g (inputs @ extra)) = fst (predict_disease g inputs)"
    if "symptom_columns g = Some schema" "inputs \<noteq> []"
  proof (cases "model g")
    case None
    then show ?thesis by (simp add: predict_disease_def)
  next
    case (Some m')
    have ne: "inputs @ extra \<noteq> []" using that(2) by simp
    show ?thesis
      by (simp only: predict_disease_fst [OF Some ne] predict_disease_fst [OF Some that(2)]
            tr [OF that(1), of m'])
  qed
  with vec tr show ?thesis by blast
qed

theorem unrecognized_symptoms_ignored_witness:
  "list_all (\<lambda>u. list_all (\<lambda>c. strip (lower u) \<noteq> strip (lower c))
                     [''Fever'', ''cough'', ''Skin Rash '']) [''Headache'', '' xyz ''] \<and>
   symptom_columns example_state = Some [''Fever'', ''cough'', ''Skin Rash ''] \<and>
   preprocess_symptoms (Some [''Fever'', ''cough'', ''Skin Rash '']) [''fever''] = Inr [1, 0, 0] \<and>
   preprocess_symptoms (Some [''Fever'', ''cough'', ''Skin Rash ''])
     ([''fever''] @ [''Headache'', '' xyz '']) = Inr [1, 0, 0] \<and>
   fst (predict_disease example_state ([''fever''] @ [''Headache'', '' xyz '']))
     = fst (predict_disease example_state [''fever''])"
proof -
  have unrec: "list_all (\<lambda>u. list_all (\<lambda>c. strip (lower u) \<noteq> strip (lower c))
                     [''Fever'', ''cough'', ''Skin Rash '']) [''Headache'', '' xyz '']"
    by code_simp
  then have hyp: "\<forall>u \<in> set [''Headache'', '' xyz ''].
                    \<forall>c \<in> set [''Fever'', ''cough'', ''Skin Rash ''].
                      strip (lower u) \<noteq> strip (lower c)"
    by (simp only: list_all_iff)
  have cols: "symptom_columns example_state = Some [''Fever'', ''cough'', ''Skin Rash '']"
    by (simp add: example_state_def)
  have ne: "[''fever''] \<noteq> []" by simp
  note t = unrecognized_symptoms_ignored
             [OF hyp, of "[''fever'']" example_state example_model]
  have vec: "preprocess_symptoms (Some [''Fever'', ''cough'', ''Skin Rash '']) [''fever'']
               = Inr [1, 0, 0]"
    using example_vector by (simp add: cols)
  with t have vec': "preprocess_symptoms (Some [''Fever'', ''cough'', ''Skin Rash ''])
                       ([''fever''] @ [''Headache'', '' xyz '']) = Inr [1, 0, 0]"
    by auto
  from t cols ne have
    "fst (predict_disease example_state ([''fever''] @ [''Headache'', '' xyz '']))
       = fst (predict_disease example_state [''fever''])"
    by blast
  with unrec cols vec vec' show ?thesis by (simp only: simp_thms)
qed

section \<open>Start-up\<close>

text \<open>
  C9: when the model file or the metadata file does not exist at its configured path,
  the start-up part of \<^verbatim>\<open>lifespan\<close> raises, the application start-up fails and the
  server never serves; when it is the model file that is missing the exception is the
  \<^verbatim>\<open>FileNotFoundError\<close> and no global has been assigned.
\<close>

theorem missing_artifact_aborts_startup:
  assumes "\<not> path_exists env (MODEL_PATH cfg) \<or> \<not> path_exists env (METADATA_PATH cfg)"
  shows "(\<exists>e. fst (lifespan cfg env g) = Some e) \<and>
         (\<exists>e. startup cfg env = Startup_failed e) \<and>
         (\<forall>g'. startup cfg env \<noteq> Serving g') \<and>
         (\<not> path_exists env (MODEL_PATH cfg) \<longrightarrow>
            lifespan cfg env g =
              (Some (FileNotFoundError (''Model file not found: '' @ MODEL_PATH cfg)), g))"
proof -
  have raised: "\<exists>e. fst (lifespan cfg env g0) = Some e" for g0
    using assms by (auto simp: lifespan_def Let_def split: sum.splits option.splits)
  from raised [of initial_state] obtain e where "fst (lifespan cfg env initial_state) = Some e"
    by blast
  then have "startup cfg env = Startup_failed e"
    by (cases "lifespan cfg env initial_state") (simp add: startup_def)
  moreover have "\<not> path_exists env (MODEL_PATH cfg) \<longrightarrow>
            lifespan cfg env g =
              (Some (FileNotFoundError (''Model file not found: '' @ MODEL_PATH cfg)), g)"
    by (simp add: lifespan_def)
  ultimately show ?thesis using raised [of g] by auto
qed

theorem missing_artifact_aborts_startup_witness:
  "\<not> path_exists metadata_missing (METADATA_PATH example_config) \<and>
   path_exists metadata_missing (MODEL_PATH example_config) \<and>
   lifespan example_config metadata_missing initial_state =
     (Some (FileNotFoundError ''Metadata file not found: model_metadata.json''),
      initial_state\<lparr>model := Some example_model\<rparr>) \<and>
   startup example_config metadata_missing =
     Startup_failed (FileNotFoundError ''Metadata file not found: model_metadata.json'')"
proof -
  have missing: "\<not> path_exists metadata_missing (METADATA_PATH example_config)"
    by (simp add: metadata_missing_def example_config_def)
  have run: "lifespan example_config metadata_missing initial_state =
     (Some (FileNotFoundError ''Metadata file not found: model_metadata.json''),
      initial_state\<lparr>model := Some example_model\<rparr>)"
    by (simp add: lifespan_def metadata_missing_def example_config_def)
  from missing_artifact_aborts_startup [of metadata_missing example_config initial_state]
       missing
  obtain e where "startup example_config metadata_missing = Startup_failed e" by blast
  moreover have "startup example_config metadata_missing =
           Startup_failed (FileNotFoundError ''Metadata file not found: model_metadata.json'')"
    by (simp add: startup_def run)
  ultimately show ?thesis using missing run
    by (simp add: metadata_missing_def example_config_def)
qed

section \<open>Empty items in a batch\<close>





section \<open>A classifier that raises\<close>






end
